theory Spec2Isabelle
  imports Main "HOL-Library.Word"
begin

section \<open>Text, bytes and exceptions\<close>

text \<open>
  The script figure_fonts_checker.py glues three external programs together. Python text
  is modelled as \<^typ>\<open>string\<close> (code points below 256), the raw output of a
  subprocess as a list of bytes, and every exception the script can end with as a value
  of \<open>exn\<close>.
\<close>

type_synonym bytes = "8 word list"

datatype exn =
    OSError string
  | RuntimeError string
  | UnboundLocalError string
  | TypeError string
  | KeyError string
  | CalledProcessError string
  | ReError string
  | AttributeError string
  | ValueError string

section \<open>The regular expressions of the script\<close>

text \<open>
  Only the part of Python's \<open>re\<close> that the script's patterns use is embedded:
  single-character atoms, greedy repetition of an atom with a lower bound, and named
  groups. The character classes are those of a \<open>str\<close> pattern, on code points below 256.
\<close>

datatype atom = Dot | Space | Word | Digit | Lit char

datatype tok = One atom | Many nat atom | GroupStart string | GroupEnd string

type_synonym pattern = "tok list"

definition is_space :: "char \<Rightarrow> bool" where
  "is_space c = (let n = (of_char c :: nat) in
     (9 \<le> n \<and> n \<le> 13) \<or> (28 \<le> n \<and> n \<le> 32) \<or> n = 133 \<or> n = 160)"

definition is_digit :: "char \<Rightarrow> bool" where
  "is_digit c = (let n = (of_char c :: nat) in 48 \<le> n \<and> n \<le> 57)"

definition is_word :: "char \<Rightarrow> bool" where
  "is_word c = (let n = (of_char c :: nat) in
     (48 \<le> n \<and> n \<le> 57) \<or> (65 \<le> n \<and> n \<le> 90) \<or> n = 95 \<or> (97 \<le> n \<and> n \<le> 122)
     \<or> n = 170 \<or> n = 178 \<or> n = 179 \<or> n = 181 \<or> n = 185 \<or> n = 186
     \<or> (188 \<le> n \<and> n \<le> 190) \<or> (192 \<le> n \<and> n \<le> 214) \<or> (216 \<le> n \<and> n \<le> 246)
     \<or> 248 \<le> n)"

definition lower_ch :: "char \<Rightarrow> char" where
  "lower_ch c = (let n = (of_char c :: nat) in
     if (65 \<le> n \<and> n \<le> 90) \<or> (192 \<le> n \<and> n \<le> 222 \<and> n \<noteq> 215)
     then char_of (n + 32) else c)"

text \<open>\<open>atom_ok ic a c\<close>: the atom \<open>a\<close> accepts the character \<open>c\<close>; \<open>ic\<close> is re.IGNORECASE.\<close>

fun atom_ok :: "bool \<Rightarrow> atom \<Rightarrow> char \<Rightarrow> bool" where
  "atom_ok ic Dot c = (c \<noteq> CHR 0x0A)"
| "atom_ok ic Space c = is_space c"
| "atom_ok ic Word c = is_word c"
| "atom_ok ic Digit c = is_digit c"
| "atom_ok ic (Lit l) c = (if ic then lower_ch c = lower_ch l else c = l)"

text \<open>
  The backtracking matcher. \<open>re_run ic ts s pos ms\<close> matches the tokens \<open>ts\<close> against
  the rest \<open>s\<close> of the subject, \<open>pos\<close> characters into it, and returns the positions of
  the group boundaries it passed. A greedy repetition \<open>Many k a\<close> first takes as many
  characters as the atom accepts; \<open>re_back\<close> then tries the rest of the pattern after
  \<open>j\<close> of them and, when that fails, after one fewer, down to the lower bound \<open>k\<close>.
\<close>

fun re_run :: "bool \<Rightarrow> pattern \<Rightarrow> string \<Rightarrow> nat \<Rightarrow> (tok \<times> nat) list \<Rightarrow> (tok \<times> nat) list option"
  and re_back :: "bool \<Rightarrow> pattern \<Rightarrow> string \<Rightarrow> nat \<Rightarrow> (tok \<times> nat) list \<Rightarrow> nat \<Rightarrow> nat \<Rightarrow> (tok \<times> nat) list option"
where
  "re_run ic [] s pos ms = Some ms"
| "re_run ic (One a # ts) s pos ms =
     (case s of [] \<Rightarrow> None
      | c # cs \<Rightarrow> if atom_ok ic a c then re_run ic ts cs (Suc pos) ms else None)"
| "re_run ic (Many k a # ts) s pos ms =
     re_back ic ts s pos ms k (length (takeWhile (atom_ok ic a) s))"
| "re_run ic (GroupStart g # ts) s pos ms = re_run ic ts s pos ((GroupStart g, pos) # ms)"
| "re_run ic (GroupEnd g # ts) s pos ms = re_run ic ts s pos ((GroupEnd g, pos) # ms)"
| "re_back ic ts s pos ms k 0 = (if k = 0 then re_run ic ts s pos ms else None)"
| "re_back ic ts s pos ms k (Suc j) =
     (if Suc j < k then None
      else (case re_run ic ts (drop (Suc j) s) (pos + Suc j) ms of
              Some r \<Rightarrow> Some r
            | None \<Rightarrow> re_back ic ts s pos ms k j))"

text \<open>\<open>pattern.match(s)\<close>: the match is anchored at the start of \<open>s\<close>, not at its end.\<close>

definition re_match :: "bool \<Rightarrow> pattern \<Rightarrow> string \<Rightarrow> (tok \<times> nat) list option" where
  "re_match ic p s = re_run ic p s 0 []"

text \<open>\<open>result.group(g)\<close> of a match on the subject \<open>s\<close>.\<close>

definition group :: "string \<Rightarrow> (tok \<times> nat) list \<Rightarrow> string \<Rightarrow> string option" where
  "group s ms g =
     (case (map_of ms (GroupStart g), map_of ms (GroupEnd g)) of
        (Some a, Some b) \<Rightarrow> Some (take (b - a) (drop a s))
      | _ \<Rightarrow> None)"

text \<open>
  \<open>pdffonts_parse_pattern\<close> is compiled with re.VERBOSE and re.IGNORECASE. Under
  re.VERBOSE the blanks, the line breaks and the \<open>#\<close> comments of the pattern text are
  not part of the pattern, so the blank written between \<open>type\<close> and \<open>.+\<close> is dropped: the
  pattern is
  \<^verbatim>\<open>(?P<name>.+)\s+(?P<type>type.+)\s{2,}(?P<emb>\w+)\s+(?P<sub>\w+)\s+(?P<uni>\w+)\s+(?P<object_id>\d+\s+\d+)\<close>.
\<close>

definition pdffonts_parse_pattern :: pattern where
  "pdffonts_parse_pattern =
    [GroupStart ''name'', Many 1 Dot, GroupEnd ''name'',
     Many 1 Space,
     GroupStart ''type'', One (Lit CHR ''t''), One (Lit CHR ''y''), One (Lit CHR ''p''),
       One (Lit CHR ''e''), Many 1 Dot, GroupEnd ''type'',
     Many 2 Space,
     GroupStart ''emb'', Many 1 Word, GroupEnd ''emb'', Many 1 Space,
     GroupStart ''sub'', Many 1 Word, GroupEnd ''sub'', Many 1 Space,
     GroupStart ''uni'', Many 1 Word, GroupEnd ''uni'',
     Many 1 Space,
     GroupStart ''object_id'', Many 1 Digit, Many 1 Space, Many 1 Digit, GroupEnd ''object_id'']"

definition parse_chunk :: "string \<Rightarrow> (tok \<times> nat) list option" where
  "parse_chunk out = re_match True pdffonts_parse_pattern out"

text \<open>
  \<open>output_pattern.split(text)\<close> for \<open>output_pattern = [\r\n]+\<close>: the pieces between
  the maximal runs of line-break characters, in order; a run at the start or at the end
  of the text leaves an empty piece there.
\<close>

definition is_nl :: "char \<Rightarrow> bool" where
  "is_nl c = (c = CHR 0x0D \<or> c = CHR 0x0A)"

function output_split :: "string \<Rightarrow> string list" where
  "output_split s =
     (case dropWhile (\<lambda>c. \<not> is_nl c) s of
        [] \<Rightarrow> [s]
      | c # r \<Rightarrow> takeWhile (\<lambda>c. \<not> is_nl c) s # output_split (dropWhile is_nl r))"
  by pat_completeness auto
termination
proof (relation "measure length")
  show "wf (measure length)" by simp
next
  fix s :: string and c r
  assume a: "dropWhile (\<lambda>c. \<not> is_nl c) s = c # r"
  have "length (dropWhile is_nl r) \<le> length r"
    by (rule length_dropWhile_le)
  moreover have "length (c # r) \<le> length s"
    using length_dropWhile_le [of "\<lambda>c. \<not> is_nl c" s] a by simp
  ultimately show "(dropWhile is_nl r, s) \<in> measure length" by simp
qed

section \<open>convert_ext and to_str\<close>

text \<open>
  \<open>os.path.splitext(p)[0]\<close> on a POSIX path: the path up to its last dot, when that dot
  lies in the last component and a character other than a dot stands between the start
  of that component and the dot; the whole path otherwise.
\<close>

definition rfind :: "char \<Rightarrow> string \<Rightarrow> nat option" where
  "rfind c p = (case filter (\<lambda>i. p ! i = c) (rev [0 ..< length p]) of [] \<Rightarrow> None | i # _ \<Rightarrow> Some i)"

definition splitext_root :: "string \<Rightarrow> string" where
  "splitext_root p =
     (case rfind CHR ''.'' p of
        None \<Rightarrow> p
      | Some dotIndex \<Rightarrow>
          (let filenameIndex = (case rfind CHR ''/'' p of None \<Rightarrow> 0 | Some sepIndex \<Rightarrow> Suc sepIndex)
           in if filenameIndex \<le> dotIndex
                 \<and> (\<exists>c \<in> set (take (dotIndex - filenameIndex) (drop filenameIndex p)). c \<noteq> CHR ''.'')
              then take dotIndex p else p))"

definition convert_ext :: "string \<Rightarrow> string \<Rightarrow> string" where
  "convert_ext base_name ext = splitext_root base_name @ ''.'' @ ext"

datatype encoding = Sjis | Utf8

text \<open>
  The codecs belong to Python, not to the script: \<open>dec enc text\<close> stands for
  \<open>text.decode(enc)\<close> and is \<open>None\<close> where that raises UnicodeDecodeError. The loop of
  \<open>to_str\<close> returns at the first encoding that decodes; falling off its end is Python's
  implicit \<open>return None\<close>, the \<open>None\<close> of the result.
\<close>

fun to_str_loop :: "(encoding \<Rightarrow> bytes \<Rightarrow> string option) \<Rightarrow> encoding list \<Rightarrow> bytes \<Rightarrow> string option" where
  "to_str_loop dec [] text = None"
| "to_str_loop dec (enc # encs) text =
     (case dec enc text of Some t \<Rightarrow> Some t | None \<Rightarrow> to_str_loop dec encs text)"

definition to_str :: "(encoding \<Rightarrow> bytes \<Rightarrow> string option) \<Rightarrow> bytes \<Rightarrow> string option" where
  "to_str dec text = to_str_loop dec [Sjis, Utf8] text"

section \<open>The process and its environment\<close>

text \<open>
  The state of the running process that the script changes: its working directory and the
  file descriptors it holds open.
\<close>

record proc =
  cwd :: string
  open_fds :: "nat list"

text \<open>
  What the operating system, the external programs and the Python library answer when the
  script calls them. \<open>None\<close> and \<open>False\<close> stand for a call that raises OSError.
  \<^item> \<open>mkdtemp_r\<close>: the directory \<open>tempfile.mkdtemp()\<close> creates;
  \<^item> \<open>mkstemp_r dir\<close>: the descriptor and the name \<open>tempfile.mkstemp(suffix=".txt", dir=dir)\<close> returns;
  \<^item> \<open>abspath_r cwd path\<close>: \<open>os.path.abspath(path)\<close> in the working directory \<open>cwd\<close>;
  \<^item> \<open>write_doc_r name text\<close>: whether opening \<open>name\<close> and writing \<open>text\<close> to it succeeds;
  \<^item> \<open>getcwd_ok\<close>, \<open>chdir_ok dir\<close>: whether \<open>os.getcwd()\<close> and \<open>os.chdir(dir)\<close> succeed;
  \<^item> \<open>platex_r name\<close>, \<open>dvipdfmx_r name\<close>: the exit status \<open>subprocess.call\<close> returns;
  \<^item> \<open>path_exists\<close>: \<open>os.path.exists\<close> once the external programs have run;
  \<^item> \<open>pdffonts_r pdf\<close>: what \<open>subprocess.check_output(["pdffonts", pdf])\<close> returns or raises;
  \<^item> \<open>decode\<close>: the codecs; \<open>glob\<close>: \<open>glob.glob\<close>;
  \<^item> \<open>re_compile_r\<close>: the pattern \<open>re.compile\<close> builds from the filter text, \<open>None\<close> for re.error;
  \<^item> \<open>set_level_r level\<close>: the exception that \<open>_log.setLevel(getattr(logging, level.upper()))\<close>
    raises, if any: AttributeError when the logging module has no attribute of that name,
    ValueError or TypeError when it has one that is not a level.
\<close>

record env =
  mkdtemp_r :: "string option"
  mkstemp_r :: "string \<Rightarrow> (nat \<times> string) option"
  abspath_r :: "string \<Rightarrow> string \<Rightarrow> string"
  write_doc_r :: "string \<Rightarrow> string \<Rightarrow> bool"
  getcwd_ok :: bool
  chdir_ok :: "string \<Rightarrow> bool"
  platex_r :: "string \<Rightarrow> int option"
  dvipdfmx_r :: "string \<Rightarrow> int option"
  path_exists :: "string \<Rightarrow> bool"
  pdffonts_r :: "string \<Rightarrow> exn + bytes"
  decode :: "encoding \<Rightarrow> bytes \<Rightarrow> string option"
  glob :: "string \<Rightarrow> string list"
  re_compile_r :: "string \<Rightarrow> pattern option"
  set_level_r :: "string \<Rightarrow> exn option"

section \<open>make_image_pdf\<close>

definition nl :: string where
  "nl = [CHR 0x0A]"

definition bs :: string where
  "bs = [CHR 0x5C]"

text \<open>
  The templates are raw strings. Only LATEX_TEMPLATE_FIGURE goes through \<open>str.format\<close>,
  which turns its doubled braces into single ones; the two others are written as they are.
\<close>

definition LATEX_TEMPLATE_START :: string where
  "LATEX_TEMPLATE_START =
     nl @ bs @ ''documentclass[a4paper]{{jarticle}}'' @ nl
        @ bs @ ''usepackage{{graphicx}}'' @ nl @ nl
        @ bs @ ''begin{{document}}'' @ nl"

definition LATEX_TEMPLATE_FIGURE_format :: "string \<Rightarrow> string" where
  "LATEX_TEMPLATE_FIGURE_format image_file =
     nl @ bs @ ''begin{figure}'' @ nl
        @ ''    '' @ bs @ ''includegraphics{'' @ image_file @ ''}'' @ nl
        @ bs @ ''end{figure}'' @ nl"

definition LATEX_TEMPLATE_END :: string where
  "LATEX_TEMPLATE_END = nl @ bs @ ''end{{document}}'' @ nl"

definition document :: "env \<Rightarrow> string \<Rightarrow> string list \<Rightarrow> string" where
  "document e dir image_files =
     LATEX_TEMPLATE_START
     @ concat (map (\<lambda>image_file.
         LATEX_TEMPLATE_FIGURE_format
           (map (\<lambda>c. if c = CHR 0x5C then CHR ''/'' else c) (abspath_r e dir image_file)))
         image_files)
     @ LATEX_TEMPLATE_END"

text \<open>
  The body of the \<open>try\<close> statement. Besides its outcome it returns the local variables
  \<open>fd\<close> and \<open>cwd\<close> as they stand when the body is left (\<open>None\<close>: not yet assigned), for the
  \<open>finally\<close> clause reads them. The file object of the \<open>with\<close> statement is closed when
  the statement is left, on success and on failure alike, so it is not in \<open>open_fds\<close>
  afterwards; the descriptor \<open>fd\<close> of \<open>mkstemp\<close> is a second, independent one.
\<close>

definition make_image_pdf_try ::
  "env \<Rightarrow> string list \<Rightarrow> string \<Rightarrow> proc \<Rightarrow> (exn + string) \<times> nat option \<times> string option \<times> proc" where
  "make_image_pdf_try e image_files tmp_dir p =
     (case mkstemp_r e tmp_dir of
        None \<Rightarrow> (Inl (OSError ''mkstemp''), None, None, p)
      | Some (fd, file_name) \<Rightarrow>
          (let p1 = p\<lparr>open_fds := fd # open_fds p\<rparr> in
           if \<not> write_doc_r e file_name (document e (cwd p1) image_files)
           then (Inl (OSError ''open''), Some fd, None, p1)
           else if \<not> getcwd_ok e
           then (Inl (OSError ''getcwd''), Some fd, None, p1)
           else if \<not> chdir_ok e tmp_dir
           then (Inl (OSError ''chdir''), Some fd, Some (cwd p1), p1)
           else
             (let p2 = p1\<lparr>cwd := tmp_dir\<rparr>;
                  pdf_file = convert_ext file_name ''pdf'';
                  check = (if path_exists e pdf_file then Inr pdf_file
                           else Inl (RuntimeError ''Failed to create pdf files''))
              in case platex_r e file_name of
                   None \<Rightarrow> (Inl (OSError ''platex''), Some fd, Some (cwd p1), p2)
                 | Some rc \<Rightarrow>
                     if rc = 0
                     then (case dvipdfmx_r e (convert_ext file_name ''dvi'') of
                             None \<Rightarrow> (Inl (OSError ''dvipdfmx''), Some fd, Some (cwd p1), p2)
                           | Some rc2 \<Rightarrow> (check, Some fd, Some (cwd p1), p2))
                     else (check, Some fd, Some (cwd p1), p2))))"

text \<open>
  The \<open>finally\<close> clause: \<open>os.close(fd)\<close>, then \<open>os.chdir(cwd)\<close>. Reading a local
  variable that was never assigned raises UnboundLocalError; an exception raised here
  ends the clause at once.
\<close>

definition make_image_pdf_finally ::
  "env \<Rightarrow> nat option \<Rightarrow> string option \<Rightarrow> proc \<Rightarrow> exn option \<times> proc" where
  "make_image_pdf_finally e fd cwd_var p =
     (case fd of
        None \<Rightarrow> (Some (UnboundLocalError ''fd''), p)
      | Some d \<Rightarrow>
          if d \<notin> set (open_fds p) then (Some (OSError ''close''), p)
          else
            (let p1 = p\<lparr>open_fds := removeAll d (open_fds p)\<rparr> in
             case cwd_var of
               None \<Rightarrow> (Some (UnboundLocalError ''cwd''), p1)
             | Some c \<Rightarrow>
                 if chdir_ok e c then (None, p1\<lparr>cwd := c\<rparr>)
                 else (Some (OSError ''chdir''), p1)))"

text \<open>
  \<open>tempfile.mkdtemp()\<close> is called before the \<open>try\<close> statement. An exception of the
  \<open>finally\<close> clause replaces the outcome of the body.
\<close>

definition make_image_pdf :: "env \<Rightarrow> string list \<Rightarrow> proc \<Rightarrow> (exn + string) \<times> proc" where
  "make_image_pdf e image_files p =
     (case mkdtemp_r e of
        None \<Rightarrow> (Inl (OSError ''mkdtemp''), p)
      | Some tmp_dir \<Rightarrow>
          (case make_image_pdf_try e image_files tmp_dir p of
             (r, fd, cwd_var, p1) \<Rightarrow>
               (case make_image_pdf_finally e fd cwd_var p1 of
                  (Some x, p2) \<Rightarrow> (Inl x, p2)
                | (None, p2) \<Rightarrow> (r, p2))))"

section \<open>check_font_type\<close>

text \<open>
  The list comprehension over the match results: a chunk that the pattern does not match
  gives nothing, a chunk that it matches gives its \<open>type\<close> group.
\<close>

definition include_fonts :: "string list \<Rightarrow> string list" where
  "include_fonts output =
     concat (map (\<lambda>out. case parse_chunk out of
                           None \<Rightarrow> []
                         | Some result \<Rightarrow> (case group out result ''type'' of None \<Rightarrow> [] | Some t \<Rightarrow> [t]))
                 output)"

text \<open>
  \<open>to_str\<close> returns \<open>None\<close> when no encoding decodes the output; \<open>output_pattern.split(None)\<close>
  then raises TypeError.
\<close>

definition check_font_type :: "env \<Rightarrow> string list \<Rightarrow> proc \<Rightarrow> (exn + string list) \<times> proc" where
  "check_font_type e image_files p =
     (case make_image_pdf e image_files p of
        (Inl x, p1) \<Rightarrow> (Inl x, p1)
      | (Inr pdf_file, p1) \<Rightarrow>
          (case pdffonts_r e pdf_file of
             Inl x \<Rightarrow> (Inl x, p1)
           | Inr output \<Rightarrow>
               (case to_str (decode e) output of
                  None \<Rightarrow> (Inl (TypeError ''expected string or bytes-like object''), p1)
                | Some text \<Rightarrow> (Inr (include_fonts (output_split text)), p1))))"

section \<open>main\<close>

definition has_wildcard :: "string \<Rightarrow> bool" where
  "has_wildcard f = (CHR ''*'' \<in> set f \<or> CHR ''?'' \<in> set f)"

text \<open>
  The wildcard loop \<open>for f in image_files\<close> changes the list it iterates over. Python's
  list iterator keeps an index \<open>i\<close>: each round reads \<open>image_files[i]\<close> into \<open>f\<close> if
  \<open>i\<close> is below the current length, and moves to \<open>i + 1\<close>. \<open>list.remove\<close> deletes the
  first element equal to \<open>f\<close>, \<open>list.extend\<close> appends. The variable \<open>f\<close> keeps its last
  value after the loop (\<open>None\<close>: never assigned). The loop need not end (a file whose own
  name holds a wildcard can make the list grow for ever), so not returning is \<open>None\<close>.
\<close>

partial_function (option) expand_loop ::
  "(string \<Rightarrow> string list) \<Rightarrow> nat \<Rightarrow> string list \<Rightarrow> string option \<Rightarrow> (string list \<times> string option) option" where
  "expand_loop gl i image_files f =
     (if i < length image_files
      then (let f' = image_files ! i in
            if has_wildcard f'
            then expand_loop gl (Suc i) (remove1 f' image_files @ gl f') (Some f')
            else expand_loop gl (Suc i) image_files (Some f'))
      else Some (image_files, f))"

declare expand_loop.simps [code]

text \<open>
  \<open>loop_state gl image_files n\<close> is the state in which round \<open>n\<close> of the wildcard loop
  on the arguments \<open>image_files\<close> starts: the index of the iterator, the list as it
  stands and the value of \<open>f\<close>; \<open>None\<close> when the loop has ended before that round. Each
  round is the body of \<open>expand_loop\<close>.
\<close>

fun loop_state ::
  "(string \<Rightarrow> string list) \<Rightarrow> string list \<Rightarrow> nat \<Rightarrow> (nat \<times> string list \<times> string option) option" where
  "loop_state gl image_files 0 = Some (0, image_files, None)"
| "loop_state gl image_files (Suc n) =
     (case loop_state gl image_files n of
        None \<Rightarrow> None
      | Some (i, xs, f) \<Rightarrow>
          if i < length xs
          then (let f' = xs ! i in
                if has_wildcard f'
                then Some (Suc i, remove1 f' xs @ gl f', Some f')
                else Some (Suc i, xs, Some f'))
          else None)"

text \<open>\<open>if type:\<close> holds for a filter text that is given and not empty.\<close>

definition truthy :: "string option \<Rightarrow> bool" where
  "truthy t = (t \<noteq> None \<and> t \<noteq> Some [])"

text \<open>
  The reporting loop; it returns the lines printed and the exception that ended it, if
  any. With a filter, the line of a matching type is formatted by
  \<open>"{f}: {font_type}".format(*locals())\<close>: the names of the local variables are passed as
  positional arguments, the field \<open>f\<close> is looked up among the keyword arguments, of which
  there are none, and KeyError is raised. Without a filter the line is formatted by
  \<open>.format(**locals())\<close>, which finds \<open>f\<close> unless the wildcard loop never assigned it.
\<close>

fun report :: "bool \<Rightarrow> bool \<Rightarrow> pattern \<Rightarrow> string option \<Rightarrow> string list \<Rightarrow> string list \<times> exn option" where
  "report filtering ic font_pattern f [] = ([], None)"
| "report filtering ic font_pattern f (font_type # font_types) =
     (if filtering
      then (if re_match ic font_pattern font_type \<noteq> None
            then ([], Some (KeyError ''f''))
            else report filtering ic font_pattern f font_types)
      else (case f of
              None \<Rightarrow> ([], Some (KeyError ''f''))
            | Some fv \<Rightarrow>
                (case report filtering ic font_pattern f font_types of
                   (lines, x) \<Rightarrow> ((fv @ '': '' @ font_type) # lines, x))))"

definition main_body ::
  "env \<Rightarrow> string list \<Rightarrow> string option \<Rightarrow> string option \<Rightarrow> bool \<Rightarrow> proc \<Rightarrow> (string list \<times> exn option) \<times> proc" where
  "main_body e image_files f type ignorecase p =
     (case (if truthy type then re_compile_r e (case type of Some t \<Rightarrow> t | None \<Rightarrow> []) else Some []) of
        None \<Rightarrow> (([], Some (ReError ''compile'')), p)
      | Some font_pattern \<Rightarrow>
          (case check_font_type e image_files p of
             (Inl x, p1) \<Rightarrow> (([], Some x), p1)
           | (Inr font_types, p1) \<Rightarrow>
               (report (truthy type) ignorecase font_pattern f font_types, p1)))"

text \<open>
  \<open>main\<close>: the result is \<open>None\<close> when the wildcard loop does not end, and otherwise the
  lines printed, the exception that ended the run (if any) and the final process state.
\<close>

definition main ::
  "env \<Rightarrow> string list \<Rightarrow> string option \<Rightarrow> bool \<Rightarrow> string \<Rightarrow> proc \<Rightarrow> ((string list \<times> exn option) \<times> proc) option" where
  "main e image_files type ignorecase log_level p =
     (case set_level_r e log_level of
        Some x \<Rightarrow> Some (([], Some x), p)
      | None \<Rightarrow>
          (case expand_loop (glob e) 0 image_files None of
             None \<Rightarrow> None
           | Some (image_files', f) \<Rightarrow> Some (main_body e image_files' f type ignorecase p)))"

section \<open>Notions of the specification and a test environment\<close>



text \<open>
  What \<open>re.compile\<close> builds from a filter text without metacharacters: one literal per
  character.
\<close>

definition literal_pattern :: "string \<Rightarrow> pattern" where
  "literal_pattern t = map (\<lambda>c. One (Lit c)) t"

text \<open>
  Bytes below 128 decode to the same ASCII text under both encodings; \<open>ascii_decode\<close>
  decodes these and fails on every other input.
\<close>

definition ascii_decode :: "encoding \<Rightarrow> bytes \<Rightarrow> string option" where
  "ascii_decode enc b =
     (if list_all (\<lambda>w. w < 128) b then Some (map (\<lambda>w. char_of (unat w)) b) else None)"

definition ascii_bytes :: "string \<Rightarrow> bytes" where
  "ascii_bytes t = map (\<lambda>c. of_nat (of_char c)) t"

text \<open>
  An environment in which every call succeeds: the temporary file is
  \<open>/tmp/tmpd/tmpf.txt\<close> on descriptor 3, both external programs exit with status 0, the PDF
  exists, \<open>pdffonts\<close> prints \<open>out\<close> and no file matches a wildcard.
\<close>

definition example_env :: "bytes \<Rightarrow> env" where
  "example_env out =
     \<lparr> mkdtemp_r = Some ''/tmp/tmpd'',
       mkstemp_r = (\<lambda>dir. Some (3, dir @ ''/tmpf.txt'')),
       abspath_r = (\<lambda>dir path. if take 1 path = ''/'' then path else dir @ ''/'' @ path),
       write_doc_r = (\<lambda>name text. True),
       getcwd_ok = True,
       chdir_ok = (\<lambda>dir. True),
       platex_r = (\<lambda>name. Some 0),
       dvipdfmx_r = (\<lambda>name. Some 0),
       path_exists = (\<lambda>path. True),
       pdffonts_r = (\<lambda>pdf. Inr out),
       decode = ascii_decode,
       glob = (\<lambda>pat. []),
       re_compile_r = (\<lambda>t. Some (literal_pattern t)),
       set_level_r = (\<lambda>level. None) \<rparr>"

definition example_proc :: proc where
  "example_proc = \<lparr> cwd = ''/home/user'', open_fds = [0, 1, 2] \<rparr>"

section \<open>The output parser on single chunks\<close>

text \<open>
  Claim C2, as stated, says that the chunk
  \<^verbatim>\<open>Arial             TrueType               yes yes yes      12  0\<close> is matched with the
  type field \<open>TrueType\<close>. It is not: the pattern wants whitespace and then the letters
  \<open>type\<close>, and in this chunk the only \<open>Type\<close> comes right after \<open>True\<close>.
\<close>

theorem parse_TrueType_chunk_counterexample:
  "\<not> (\<exists>result. parse_chunk ''Arial             TrueType               yes yes yes      12  0'' = Some result
       \<and> group ''Arial             TrueType               yes yes yes      12  0'' result ''type'' = Some ''TrueType'')"
proof -
  have "parse_chunk ''Arial             TrueType               yes yes yes      12  0'' = None"
    by code_simp
  then show ?thesis by simp
qed

text \<open>
  Claim C2, amended: the parser pattern does not match the chunk of the claim, which
  contributes no font type; a chunk whose type column starts with \<open>Type\<close>, such as
  \<^verbatim>\<open>Arial             Type 1               yes yes yes      12  0\<close>, is matched, and its
  type field is \<open>Type 1\<close> with the blanks that follow it, less the last two.
\<close>

theorem parse_TrueType_chunk_no_match:
  "include_fonts [''Arial             TrueType               yes yes yes      12  0''] = []
   \<and> include_fonts [''Arial             Type 1               yes yes yes      12  0'']
       = [''Type 1             '']"
  by code_simp

section \<open>The order of the encodings\<close>

text \<open>
  The loop of \<open>to_str\<close> returns the text of the first encoding of its list that decodes
  the bytes, and nothing when none does.
\<close>

lemma to_str_loop_first:
  "to_str_loop dec encs b = Some t \<longleftrightarrow>
     (\<exists>i < length encs. dec (encs ! i) b = Some t \<and> (\<forall>j < i. dec (encs ! j) b = None))"
proof (induction encs)
  case Nil
  then show ?case by simp
next
  case (Cons enc encs)
  show ?case
  proof (cases "dec enc b")
    case None
    have "(\<exists>i < length (enc # encs). dec ((enc # encs) ! i) b = Some t \<and> (\<forall>j < i. dec ((enc # encs) ! j) b = None))
        \<longleftrightarrow> (\<exists>i < length encs. dec (encs ! i) b = Some t \<and> (\<forall>j < i. dec (encs ! j) b = None))"
      (is "?L \<longleftrightarrow> ?R")
    proof
      assume ?L
      then obtain i where i: "i < length (enc # encs)" "dec ((enc # encs) ! i) b = Some t"
        "\<forall>j < i. dec ((enc # encs) ! j) b = None" by blast
      with None obtain i' where i': "i = Suc i'" by (cases i) auto
      have "\<forall>j < i'. dec (encs ! j) b = None"
      proof (intro allI impI)
        fix j assume "j < i'"
        then have "Suc j < i" using i' by simp
        with i(3) have "dec ((enc # encs) ! Suc j) b = None" by blast
        then show "dec (encs ! j) b = None" by simp
      qed
      with i i' show ?R by auto
    next
      assume ?R
      then obtain i where i: "i < length encs" "dec (encs ! i) b = Some t"
        "\<forall>j < i. dec (encs ! j) b = None" by blast
      have "\<forall>j < Suc i. dec ((enc # encs) ! j) b = None"
      proof (intro allI impI)
        fix j assume "j < Suc i"
        then show "dec ((enc # encs) ! j) b = None"
          using None i(3) by (cases j) auto
      qed
      with i show ?L by (intro exI [of _ "Suc i"]) auto
    qed
    with None Cons.IH show ?thesis by simp
  next
    case (Some u)
    have "(\<exists>i < length (enc # encs). dec ((enc # encs) ! i) b = Some t \<and> (\<forall>j < i. dec ((enc # encs) ! j) b = None))
        \<longleftrightarrow> u = t"
    proof
      assume "\<exists>i < length (enc # encs). dec ((enc # encs) ! i) b = Some t \<and> (\<forall>j < i. dec ((enc # encs) ! j) b = None)"
      then obtain i where i: "dec ((enc # encs) ! i) b = Some t"
        "\<forall>j < i. dec ((enc # encs) ! j) b = None" by blast
      have "i = 0"
      proof (rule ccontr)
        assume "i \<noteq> 0"
        then have "dec ((enc # encs) ! 0) b = None" using i(2) by blast
        with Some show False by simp
      qed
      with i Some show "u = t" by simp
    next
      assume "u = t"
      with Some show "\<exists>i < length (enc # encs). dec ((enc # encs) ! i) b = Some t \<and> (\<forall>j < i. dec ((enc # encs) ! j) b = None)"
        by (intro exI [of _ 0]) simp
    qed
    with Some show ?thesis by simp
  qed
qed

text \<open>
  Claim C9: \<open>to_str\<close> tries sjis, then utf8. When sjis decodes the bytes the result is
  the sjis text, whatever utf8 would give; when sjis fails and utf8 decodes, the result is
  the utf8 text; when both fail the result is \<open>None\<close>.
\<close>

theorem to_str_order:
  "(\<forall>t. dec Sjis b = Some t \<longrightarrow> to_str dec b = Some t)
   \<and> (\<forall>t. dec Sjis b = None \<and> dec Utf8 b = Some t \<longrightarrow> to_str dec b = Some t)
   \<and> (dec Sjis b = None \<and> dec Utf8 b = None \<longrightarrow> to_str dec b = None)"
  by (simp add: to_str_def)

theorem to_str_order_witness:
  "to_str (\<lambda>enc b. case enc of Sjis \<Rightarrow> Some ''s'' | Utf8 \<Rightarrow> Some ''u'') [0x41] = Some ''s''
   \<and> to_str (\<lambda>enc b. case enc of Sjis \<Rightarrow> None | Utf8 \<Rightarrow> Some ''u'') [0x41] = Some ''u''
   \<and> to_str ascii_decode [0xFF] = None"
proof -
  have a: "ascii_decode Sjis [0xFF] = None" "ascii_decode Utf8 [0xFF] = None"
    by (simp_all add: ascii_decode_def)
  show ?thesis
    using to_str_order [of "\<lambda>enc b. case enc of Sjis \<Rightarrow> Some ''s'' | Utf8 \<Rightarrow> Some ''u''" "[0x41]"]
      to_str_order [of "\<lambda>enc b. case enc of Sjis \<Rightarrow> None | Utf8 \<Rightarrow> Some ''u''" "[0x41]"]
      to_str_order [of ascii_decode "[0xFF]"] a
    by simp
qed

section \<open>Output that no encoding decodes\<close>

text \<open>
  Claim C3, as stated, says that \<open>check_font_type\<close> returns an empty list when the output
  of \<open>pdffonts\<close> decodes under neither encoding. For the single byte \<open>0xFF\<close>, which
  neither sjis nor utf8 decodes, \<open>to_str\<close> returns \<open>None\<close> and \<open>check_font_type\<close> does
  not return the empty list.
\<close>

theorem check_font_type_undecodable_counterexample:
  "to_str (decode (example_env [0xFF])) [0xFF] = None
   \<and> fst (check_font_type (example_env [0xFF]) [''a.png''] example_proc) \<noteq> Inr []"
  by code_simp

text \<open>
  Claim C3, amended: when \<open>make_image_pdf\<close> has returned the PDF, \<open>pdffonts\<close> has
  delivered its output and that output decodes under neither sjis nor utf8, \<open>to_str\<close>
  raises nothing and returns \<open>None\<close>, and \<open>check_font_type\<close> returns no list of font
  types: it ends with the TypeError that splitting \<open>None\<close> raises.
\<close>

theorem check_font_type_undecodable:
  assumes "make_image_pdf e image_files p = (Inr pdf_file, p1)"
    and "pdffonts_r e pdf_file = Inr output"
    and "decode e Sjis output = None" and "decode e Utf8 output = None"
  shows "to_str (decode e) output = None
    \<and> check_font_type e image_files p = (Inl (TypeError ''expected string or bytes-like object''), p1)"
proof -
  have "to_str (decode e) output = None"
    using assms(3,4) by (simp add: to_str_def)
  with assms(1,2) show ?thesis
    by (simp add: check_font_type_def)
qed

theorem check_font_type_undecodable_witness:
  "make_image_pdf (example_env [0xFF]) [''a.png''] example_proc = (Inr ''/tmp/tmpd/tmpf.pdf'', example_proc)
   \<and> pdffonts_r (example_env [0xFF]) ''/tmp/tmpd/tmpf.pdf'' = Inr [0xFF]
   \<and> decode (example_env [0xFF]) Sjis [0xFF] = None
   \<and> decode (example_env [0xFF]) Utf8 [0xFF] = None
   \<and> to_str (decode (example_env [0xFF])) [0xFF] = None
   \<and> check_font_type (example_env [0xFF]) [''a.png''] example_proc
       = (Inl (TypeError ''expected string or bytes-like object''), example_proc)"
proof -
  have a: "make_image_pdf (example_env [0xFF]) [''a.png''] example_proc = (Inr ''/tmp/tmpd/tmpf.pdf'', example_proc)"
    by code_simp
  have b: "pdffonts_r (example_env [0xFF]) ''/tmp/tmpd/tmpf.pdf'' = Inr [0xFF]"
    by (simp add: example_env_def)
  have c: "decode (example_env [0xFF]) Sjis [0xFF] = None" "decode (example_env [0xFF]) Utf8 [0xFF] = None"
    by (simp_all add: example_env_def ascii_decode_def)
  show ?thesis
    using check_font_type_undecodable [OF a b c] a b c by simp
qed

section \<open>The outcome and the clean-up of make_image_pdf\<close>

text \<open>
  Claim C4, as stated, makes the outcome depend only on whether the \<open>.pdf\<close> path
  exists once the compiler has run. It also depends on the \<open>finally\<close> clause: in an
  environment that lets the process enter the temporary directory but not return to
  \<open>/home/user\<close>, the \<open>os.chdir(cwd)\<close> of the clause raises OSError, which replaces the
  return of the existing path in one run and the RuntimeError for the missing path in the
  other.
\<close>

theorem make_image_pdf_chdir_back_fails_counterexample:
  "path_exists ((example_env [])\<lparr>chdir_ok := (\<lambda>dir. dir = ''/tmp/tmpd'')\<rparr>)
       (convert_ext ''/tmp/tmpd/tmpf.txt'' ''pdf'')
   \<and> fst (make_image_pdf ((example_env [])\<lparr>chdir_ok := (\<lambda>dir. dir = ''/tmp/tmpd'')\<rparr>)
            [''a.png''] example_proc)
       = Inl (OSError ''chdir'')
   \<and> fst (make_image_pdf
            ((example_env [])\<lparr>chdir_ok := (\<lambda>dir. dir = ''/tmp/tmpd''), path_exists := (\<lambda>path. False)\<rparr>)
            [''a.png''] example_proc)
       = Inl (OSError ''chdir'')"
  by code_simp

text \<open>
  Claim C4, amended: \<open>make_image_pdf\<close> ends with RuntimeError exactly when the temporary
  file was written, the working directory was changed, the compiler was run (and the
  converter after a compiler exit status of 0, with any exit status of its own), the
  derived \<open>.pdf\<close> path does not exist and the \<open>os.chdir(cwd)\<close> of the \<open>finally\<close> clause
  succeeds; the message is then \<open>Failed to create pdf files\<close>. When all of this holds
  except that the \<open>.pdf\<close> path exists, the function returns that path, whatever the
  converter's exit status.
\<close>

theorem make_image_pdf_fails_iff_no_pdf:
  "(fst (make_image_pdf e image_files p) = Inl (RuntimeError m) \<longleftrightarrow>
      m = ''Failed to create pdf files''
      \<and> (\<exists>tmp_dir fd file_name rc.
            mkdtemp_r e = Some tmp_dir \<and> mkstemp_r e tmp_dir = Some (fd, file_name)
            \<and> write_doc_r e file_name (document e (cwd p) image_files)
            \<and> getcwd_ok e \<and> chdir_ok e tmp_dir \<and> chdir_ok e (cwd p)
            \<and> platex_r e file_name = Some rc
            \<and> (rc = 0 \<longrightarrow> dvipdfmx_r e (convert_ext file_name ''dvi'') \<noteq> None)
            \<and> \<not> path_exists e (convert_ext file_name ''pdf'')))
   \<and> (\<forall>tmp_dir fd file_name rc.
         mkdtemp_r e = Some tmp_dir \<and> mkstemp_r e tmp_dir = Some (fd, file_name)
         \<and> write_doc_r e file_name (document e (cwd p) image_files)
         \<and> getcwd_ok e \<and> chdir_ok e tmp_dir \<and> chdir_ok e (cwd p)
         \<and> platex_r e file_name = Some rc
         \<and> (rc = 0 \<longrightarrow> dvipdfmx_r e (convert_ext file_name ''dvi'') \<noteq> None)
         \<and> path_exists e (convert_ext file_name ''pdf'')
         \<longrightarrow> fst (make_image_pdf e image_files p) = Inr (convert_ext file_name ''pdf''))"
  by (auto simp: make_image_pdf_def make_image_pdf_try_def make_image_pdf_finally_def Let_def
      split: option.splits if_splits prod.splits)

theorem make_image_pdf_fails_iff_no_pdf_witness:
  "fst (make_image_pdf ((example_env [])\<lparr>path_exists := (\<lambda>path. False)\<rparr>) [''a.png''] example_proc)
     = Inl (RuntimeError ''Failed to create pdf files'')
   \<and> fst (make_image_pdf ((example_env [])\<lparr>dvipdfmx_r := (\<lambda>name. Some 1)\<rparr>) [''a.png''] example_proc)
     = Inr ''/tmp/tmpd/tmpf.pdf''"
proof -
  have c: "convert_ext ''/tmp/tmpd/tmpf.txt'' ''pdf'' = ''/tmp/tmpd/tmpf.pdf''"
    by code_simp
  have "fst (make_image_pdf ((example_env [])\<lparr>path_exists := (\<lambda>path. False)\<rparr>) [''a.png''] example_proc)
     = Inl (RuntimeError ''Failed to create pdf files'')"
    using make_image_pdf_fails_iff_no_pdf
      [of "(example_env [])\<lparr>path_exists := (\<lambda>path. False)\<rparr>" "[''a.png'']" example_proc
          "''Failed to create pdf files''"]
    by (simp add: example_env_def)
  moreover have "fst (make_image_pdf ((example_env [])\<lparr>dvipdfmx_r := (\<lambda>name. Some 1)\<rparr>) [''a.png''] example_proc)
     = Inr ''/tmp/tmpd/tmpf.pdf''"
    using make_image_pdf_fails_iff_no_pdf
      [of "(example_env [])\<lparr>dvipdfmx_r := (\<lambda>name. Some 1)\<rparr>" "[''a.png'']" example_proc]
      c
    by (simp add: example_env_def)
  ultimately show ?thesis by simp
qed




section \<open>The wildcard loop and the report\<close>

text \<open>
  Claim C7: for the arguments \<open>a.png\<close> and \<open>*.jpg\<close>, when \<open>glob\<close> gives \<open>b.jpg\<close> and
  \<open>c.jpg\<close> for \<open>*.jpg\<close>, the wildcard loop ends with the list \<open>a.png\<close>, \<open>b.jpg\<close>,
  \<open>c.jpg\<close>, and that list is what \<open>main\<close> hands to the rest of the pipeline.
\<close>

theorem main_expands_wildcard:
  assumes "set_level_r e log_level = None"
    and "glob e ''*.jpg'' = [''b.jpg'', ''c.jpg'']"
  shows "expand_loop (glob e) 0 [''a.png'', ''*.jpg''] None
           = Some ([''a.png'', ''b.jpg'', ''c.jpg''], Some ''c.jpg'')
    \<and> main e [''a.png'', ''*.jpg''] type ignorecase log_level p
           = Some (main_body e [''a.png'', ''b.jpg'', ''c.jpg''] (Some ''c.jpg'') type ignorecase p)"
proof -
  have "expand_loop (glob e) 0 [''a.png'', ''*.jpg''] None
           = Some ([''a.png'', ''b.jpg'', ''c.jpg''], Some ''c.jpg'')"
    using assms(2) by (simp add: expand_loop.simps has_wildcard_def Let_def)
  with assms(1) show ?thesis by (simp add: main_def)
qed

theorem main_expands_wildcard_witness:
  "set_level_r ((example_env [])\<lparr>glob := (\<lambda>pat. if pat = ''*.jpg'' then [''b.jpg'', ''c.jpg''] else [])\<rparr>) ''INFO'' = None
   \<and> glob ((example_env [])\<lparr>glob := (\<lambda>pat. if pat = ''*.jpg'' then [''b.jpg'', ''c.jpg''] else [])\<rparr>) ''*.jpg''
       = [''b.jpg'', ''c.jpg'']
   \<and> expand_loop (glob ((example_env [])\<lparr>glob := (\<lambda>pat. if pat = ''*.jpg'' then [''b.jpg'', ''c.jpg''] else [])\<rparr>))
        0 [''a.png'', ''*.jpg''] None
       = Some ([''a.png'', ''b.jpg'', ''c.jpg''], Some ''c.jpg'')"
proof -
  let ?e = "(example_env [])\<lparr>glob := (\<lambda>pat. if pat = ''*.jpg'' then [''b.jpg'', ''c.jpg''] else [])\<rparr>"
  have a: "set_level_r ?e ''INFO'' = None" by (simp add: example_env_def)
  have b: "glob ?e ''*.jpg'' = [''b.jpg'', ''c.jpg'']" by simp
  from main_expands_wildcard [OF a b] a b show ?thesis by blast
qed

text \<open>
  With a filter the report prints nothing at all: a type that the filter does not match
  is skipped, and the first type that it matches ends the run with KeyError. Without a
  filter every type gets a line that starts with the value of \<open>f\<close>.
\<close>

lemma report_filtering:
  "report True ic font_pattern f font_types =
     ([], if list_ex (\<lambda>t. re_match ic font_pattern t \<noteq> None) font_types
          then Some (KeyError ''f'') else None)"
  by (induction font_types) simp_all

lemma report_unfiltered:
  "report False ic font_pattern (Some fv) font_types = (map (\<lambda>t. fv @ '': '' @ t) font_types, None)"
  by (induction font_types) simp_all

text \<open>
  Claim C1 says that with the filter \<open>Type1\<close> and no ignorecase flag a font of type
  \<open>type1C\<close> gives no line and a font of type \<open>Type1C\<close> gives a line. The first half
  holds; for \<open>Type1C\<close> the filter matches, and the run ends with KeyError before
  anything is printed. Without the filter the same font gives the line \<open>a.png: Type1C\<close>.
\<close>

theorem main_filter_match_raises_KeyError:
  "main (example_env (ascii_bytes ''Arial Type1C  yes yes yes 12 0'')) [''a.png'']
        (Some ''Type1'') False ''INFO'' example_proc
     = Some (([], Some (KeyError ''f'')), example_proc)
   \<and> main (example_env (ascii_bytes ''Arial type1C  yes yes yes 12 0'')) [''a.png'']
        (Some ''Type1'') False ''INFO'' example_proc
     = Some (([], None), example_proc)
   \<and> main (example_env (ascii_bytes ''Arial Type1C  yes yes yes 12 0'')) [''a.png'']
        None False ''INFO'' example_proc
     = Some (([''a.png: Type1C''], None), example_proc)"
  by code_simp

text \<open>
  Once the loop variable \<open>f\<close> has a value it keeps having one, and the first round of
  the loop on a list that is not empty gives it one.
\<close>

lemma expand_loop_keeps_f:
  assumes "expand_loop gl i image_files f = Some y"
  shows "f \<noteq> None \<longrightarrow> snd y \<noteq> None"
proof (rule expand_loop.raw_induct [where P = "\<lambda>gl i image_files f y. f \<noteq> None \<longrightarrow> snd y \<noteq> None", OF _ assms])
  fix expand_loop' :: "(string \<Rightarrow> string list) \<Rightarrow> nat \<Rightarrow> string list \<Rightarrow> string option \<Rightarrow> (string list \<times> string option) option"
  fix gl i image_files f y
  assume IH: "\<And>gl i image_files f y. expand_loop' gl i image_files f = Some y \<Longrightarrow> f \<noteq> None \<longrightarrow> snd y \<noteq> None"
  assume step: "(if i < length image_files
        then let f' = image_files ! i
             in if has_wildcard f'
                then expand_loop' gl (Suc i) (remove1 f' image_files @ gl f') (Some f')
                else expand_loop' gl (Suc i) image_files (Some f')
        else Some (image_files, f)) = Some y"
  show "f \<noteq> None \<longrightarrow> snd y \<noteq> None"
  proof (cases "i < length image_files")
    case True
    then show ?thesis using step IH by (auto simp: Let_def split: if_splits)
  next
    case False
    then show ?thesis using step by auto
  qed
qed

lemma expand_loop_assigns_f:
  assumes "image_files \<noteq> []" and "expand_loop gl 0 image_files None = Some (xs, g)"
  shows "\<exists>f. g = Some f"
proof -
  from assms(1) have "0 < length image_files" by simp
  with assms(2) obtain ys where "expand_loop gl (Suc 0) ys (Some (image_files ! 0)) = Some (xs, g)"
    by (subst (asm) expand_loop.simps) (auto simp: Let_def split: if_splits)
  from expand_loop_keeps_f [OF this] show ?thesis by auto
qed

text \<open>
  Claim C6: in a run with at least one image argument and no filter, every line printed
  is the value that the wildcard loop left in its variable \<open>f\<close> (the last list entry the
  loop read), followed by a colon, a blank and a font type; when the run ends without an
  exception, the lines are exactly the font types found, each behind that same label.
\<close>

theorem main_unfiltered_label:
  assumes "image_files \<noteq> []" and "\<not> truthy type"
    and "main e image_files type ignorecase log_level p = Some ((lines, x), p')"
  shows "(\<forall>l \<in> set lines. \<exists>xs f font_type.
            expand_loop (glob e) 0 image_files None = Some (xs, Some f) \<and> l = f @ '': '' @ font_type)
    \<and> (x = None \<longrightarrow> (\<exists>xs f font_types.
            expand_loop (glob e) 0 image_files None = Some (xs, Some f)
            \<and> fst (check_font_type e xs p) = Inr font_types
            \<and> lines = map (\<lambda>font_type. f @ '': '' @ font_type) font_types))"
proof (cases "set_level_r e log_level")
  case (Some ex)
  with assms(3) show ?thesis by (auto simp: main_def)
next
  case None
  with assms(3) obtain xs g where loop: "expand_loop (glob e) 0 image_files None = Some (xs, g)"
    and body: "main_body e xs g type ignorecase p = ((lines, x), p')"
    by (auto simp: main_def split: option.splits)
  from expand_loop_assigns_f [OF assms(1) loop] obtain f where g: "g = Some f" by blast
  show ?thesis
  proof (cases "check_font_type e xs p")
    case (Pair r p1)
    show ?thesis
    proof (cases r)
      case (Inl ex)
      with Pair body assms(2) have "lines = []" and "x \<noteq> None"
        by (auto simp: main_body_def)
      then show ?thesis by auto
    next
      case (Inr font_types)
      with Pair body assms(2) g have "lines = map (\<lambda>font_type. f @ '': '' @ font_type) font_types"
        by (simp add: main_body_def report_unfiltered)
      moreover have "fst (check_font_type e xs p) = Inr font_types"
        using Pair Inr by simp
      ultimately show ?thesis using loop g by auto
    qed
  qed
qed

theorem main_unfiltered_label_witness:
  "[''a.png'', ''b.png''] \<noteq> [] \<and> \<not> truthy None
   \<and> main (example_env (ascii_bytes ''Arial Type 1  yes yes yes 12 0'')) [''a.png'', ''b.png'']
        None False ''INFO'' example_proc
      = Some (([''b.png: Type 1''], None), example_proc)
   \<and> (\<exists>xs f font_type.
         expand_loop (glob (example_env (ascii_bytes ''Arial Type 1  yes yes yes 12 0''))) 0
           [''a.png'', ''b.png''] None = Some (xs, Some f)
         \<and> ''b.png: Type 1'' = f @ '': '' @ font_type)"
proof -
  let ?e = "example_env (ascii_bytes ''Arial Type 1  yes yes yes 12 0'')"
  have a: "[''a.png'', ''b.png''] \<noteq> ([] :: string list)" by simp
  have b: "\<not> truthy None" by (simp add: truthy_def)
  have c: "main ?e [''a.png'', ''b.png''] None False ''INFO'' example_proc
      = Some (([''b.png: Type 1''], None), example_proc)"
    by code_simp
  from main_unfiltered_label [OF a b c] have "\<forall>l \<in> set [''b.png: Type 1'']. \<exists>xs f font_type.
      expand_loop (glob ?e) 0 [''a.png'', ''b.png''] None = Some (xs, Some f) \<and> l = f @ '': '' @ font_type"
    by blast
  with a b c show ?thesis by simp
qed

section \<open>Consecutive wildcard arguments\<close>

text \<open>
  Claim C10, as stated, speaks of every two consecutive wildcard entries. In the list
  \<open>*.a\<close>, \<open>*.b\<close>, \<open>*.c\<close> the entries \<open>*.b\<close> and \<open>*.c\<close> are consecutive and both hold a
  wildcard, yet \<open>*.c\<close> is read by the loop (it is the last value of \<open>f\<close>), expanded and
  gone from the final list: it is \<open>*.b\<close>, skipped after the removal of \<open>*.a\<close>, that stays.
\<close>

theorem expand_loop_consecutive_wildcards_counterexample:
  "has_wildcard ''*.b'' \<and> has_wildcard ''*.c''
   \<and> expand_loop (\<lambda>pat. []) 0 [''*.a'', ''*.b'', ''*.c''] None = Some ([''*.b''], Some ''*.c'')
   \<and> ''*.c'' \<notin> set [''*.b'']"
  by code_simp

text \<open>
  Removing the entry at the index of the iterator keeps every entry that stood before
  that index within the first \<open>i + 1\<close> entries of the new list, so what the iterator has
  passed stays in the list to the end of the loop.
\<close>

lemma remove1_split:
  "remove1 x xs = (if x \<in> set (take i xs) then remove1 x (take i xs) @ drop i xs
                   else take i xs @ remove1 x (drop i xs))"
proof -
  have "remove1 x (take i xs @ drop i xs)
      = (if x \<in> set (take i xs) then remove1 x (take i xs) @ drop i xs
         else take i xs @ remove1 x (drop i xs))"
    by (rule remove1_append)
  then show ?thesis by (simp only: append_take_drop_id)
qed

lemma take_remove1_keeps:
  assumes "i < length xs" and "w \<in> set (take i xs)"
  shows "w \<in> set (take (Suc i) (remove1 (xs ! i) xs @ ys))"
proof (cases "xs ! i \<in> set (take i xs)")
  case True
  have r: "remove1 (xs ! i) xs = remove1 (xs ! i) (take i xs) @ drop i xs"
    using True remove1_split [of "xs ! i" xs i] by simp
  have "0 < i" using True by (cases i) auto
  have len: "length (remove1 (xs ! i) (take i xs)) = i - 1"
    using True assms(1) by (simp add: length_remove1)
  have d: "drop i xs = xs ! i # drop (Suc i) xs"
    using assms(1) by (simp add: Cons_nth_drop_Suc)
  have "take (Suc i) (remove1 (xs ! i) xs @ ys)
      = remove1 (xs ! i) (take i xs) @ take (Suc i - (i - 1)) (xs ! i # drop (Suc i) xs @ ys)"
    using r len d by simp
  moreover have "Suc i - (i - 1) = Suc (Suc 0)" using \<open>0 < i\<close> by simp
  ultimately have t: "take (Suc i) (remove1 (xs ! i) xs @ ys)
      = remove1 (xs ! i) (take i xs) @ xs ! i # take (Suc 0) (drop (Suc i) xs @ ys)"
    by simp
  show ?thesis
  proof (cases "w = xs ! i")
    case True
    then show ?thesis using t by simp
  next
    case False
    with assms(2) have "w \<in> set (remove1 (xs ! i) (take i xs))" by simp
    then show ?thesis using t by simp
  qed
next
  case False
  have r: "remove1 (xs ! i) xs = take i xs @ remove1 (xs ! i) (drop i xs)"
    using False remove1_split [of "xs ! i" xs i] by simp
  have "length (take i xs) = i" using assms(1) by simp
  then have "take (Suc i) (remove1 (xs ! i) xs @ ys)
      = take i xs @ take (Suc 0) (remove1 (xs ! i) (drop i xs) @ ys)"
    using r by simp
  with assms(2) show ?thesis by simp
qed

lemma expand_loop_keeps_passed:
  assumes "expand_loop gl i image_files f = Some y"
  shows "w \<in> set (take i image_files) \<longrightarrow> w \<in> set (fst y)"
proof (rule expand_loop.raw_induct
    [where P = "\<lambda>gl i image_files f y. w \<in> set (take i image_files) \<longrightarrow> w \<in> set (fst y)", OF _ assms])
  fix expand_loop' :: "(string \<Rightarrow> string list) \<Rightarrow> nat \<Rightarrow> string list \<Rightarrow> string option \<Rightarrow> (string list \<times> string option) option"
  fix gl i image_files f y
  assume IH: "\<And>gl i image_files f y. expand_loop' gl i image_files f = Some y
                \<Longrightarrow> w \<in> set (take i image_files) \<longrightarrow> w \<in> set (fst y)"
  assume step: "(if i < length image_files
        then let f' = image_files ! i
             in if has_wildcard f'
                then expand_loop' gl (Suc i) (remove1 f' image_files @ gl f') (Some f')
                else expand_loop' gl (Suc i) image_files (Some f')
        else Some (image_files, f)) = Some y"
  show "w \<in> set (take i image_files) \<longrightarrow> w \<in> set (fst y)"
  proof
    assume w: "w \<in> set (take i image_files)"
    show "w \<in> set (fst y)"
    proof (cases "i < length image_files")
      case False
      with step have "y = (image_files, f)" by simp
      with w show ?thesis by (auto dest: in_set_takeD)
    next
      case True
      show ?thesis
      proof (cases "has_wildcard (image_files ! i)")
        case wild: True
        with True step have "expand_loop' gl (Suc i)
            (remove1 (image_files ! i) image_files @ gl (image_files ! i)) (Some (image_files ! i)) = Some y"
          by (simp add: Let_def)
        from IH [OF this] take_remove1_keeps [OF True w] show ?thesis by blast
      next
        case plain: False
        with True step have "expand_loop' gl (Suc i) image_files (Some (image_files ! i)) = Some y"
          by (simp add: Let_def)
        moreover have "w \<in> set (take (Suc i) image_files)"
          using w True by (simp add: take_Suc_conv_app_nth)
        ultimately show ?thesis using IH by blast
      qed
    qed
  qed
qed

text \<open>
  The loop started on the arguments goes on from each of its states, and removing the
  entry at an index moves the entry after it into that index.
\<close>

lemma loop_state_expand_loop:
  "loop_state gl image_files n = Some (i, xs, f) \<Longrightarrow>
     expand_loop gl 0 image_files None = expand_loop gl i xs f"
proof (induction n arbitrary: i xs f)
  case 0
  then show ?case by simp
next
  case (Suc n)
  from Suc.prems obtain j ys g where prev: "loop_state gl image_files n = Some (j, ys, g)"
    and j: "j < length ys"
    and next_state: "(i, xs, f) = (if has_wildcard (ys ! j)
                          then (Suc j, remove1 (ys ! j) ys @ gl (ys ! j), Some (ys ! j))
                          else (Suc j, ys, Some (ys ! j)))"
    by (auto simp: Let_def split: option.splits if_splits)
  have "expand_loop gl 0 image_files None = expand_loop gl j ys g"
    by (rule Suc.IH [OF prev])
  also have "\<dots> = expand_loop gl i xs f"
    using j next_state by (subst expand_loop.simps) (simp add: Let_def split: if_splits)
  finally show ?case .
qed

lemma nth_in_take_Suc:
  "i < length zs \<Longrightarrow> zs ! i \<in> set (take (Suc i) zs)"
  by (simp add: take_Suc_conv_app_nth)

lemma remove1_nth_shift:
  assumes "Suc i < length xs"
  shows "(remove1 (xs ! i) xs @ ys) ! i = xs ! Suc i"
  using assms
proof (induction xs arbitrary: i)
  case Nil
  then show ?case by simp
next
  case (Cons x xs)
  show ?case
  proof (cases i)
    case 0
    then show ?thesis using Cons.prems by (simp add: nth_append)
  next
    case (Suc k)
    with Cons.prems have k: "Suc k < length xs" by simp
    show ?thesis
    proof (cases "x = xs ! k")
      case True
      then show ?thesis using Suc k by (simp add: nth_append)
    next
      case False
      then show ?thesis using Suc Cons.IH [OF k] by simp
    qed
  qed
qed

text \<open>
  Claim C10, amended: whenever the loop examines an entry that holds a wildcard while the
  entry after it also holds one (so, for two consecutive wildcard arguments, whenever the
  first of them is itself examined), removing the examined entry moves the second into
  the index just examined and the loop goes on at the next index: the second entry is
  skipped, and if the loop ends, the final list still holds an entry equal to it.
\<close>

theorem expand_loop_skips_second_wildcard:
  assumes "loop_state gl image_files n = Some (i, xs, f)"
    and "Suc i < length xs"
    and "has_wildcard (xs ! i)" and "has_wildcard (xs ! Suc i)"
  shows "loop_state gl image_files (Suc n)
           = Some (Suc i, remove1 (xs ! i) xs @ gl (xs ! i), Some (xs ! i))
    \<and> (remove1 (xs ! i) xs @ gl (xs ! i)) ! i = xs ! Suc i
    \<and> (\<forall>ys g. expand_loop gl 0 image_files None = Some (ys, g) \<longrightarrow> xs ! Suc i \<in> set ys)"
proof -
  let ?xs' = "remove1 (xs ! i) xs @ gl (xs ! i)"
  have i: "i < length xs" using assms(2) by simp
  have step: "loop_state gl image_files (Suc n) = Some (Suc i, ?xs', Some (xs ! i))"
    using assms(1,3) i by (simp add: Let_def)
  have shift: "?xs' ! i = xs ! Suc i"
    by (rule remove1_nth_shift [OF assms(2)])
  have len: "i < length ?xs'"
    using assms(2) i by (simp add: length_remove1)
  have "?xs' ! i \<in> set (take (Suc i) ?xs')"
    using len by (rule nth_in_take_Suc)
  then have passed: "xs ! Suc i \<in> set (take (Suc i) ?xs')"
    using shift by (simp only:)
  have eq: "expand_loop gl 0 image_files None = expand_loop gl (Suc i) ?xs' (Some (xs ! i))"
    by (rule loop_state_expand_loop [OF step])
  have "\<forall>ys g. expand_loop gl 0 image_files None = Some (ys, g) \<longrightarrow> xs ! Suc i \<in> set ys"
  proof (intro allI impI)
    fix ys g
    assume "expand_loop gl 0 image_files None = Some (ys, g)"
    with eq have "expand_loop gl (Suc i) ?xs' (Some (xs ! i)) = Some (ys, g)" by simp
    from expand_loop_keeps_passed [OF this, of "xs ! Suc i"] passed
    have "xs ! Suc i \<in> set (fst (ys, g))" by blast
    then show "xs ! Suc i \<in> set ys" by (simp only: fst_conv)
  qed
  with step shift show ?thesis by blast
qed

theorem expand_loop_skips_second_wildcard_witness:
  "loop_state (\<lambda>pat. []) [''*.a'', ''x.png'', ''*.b'', ''*.c''] 1
     = Some (1, [''x.png'', ''*.b'', ''*.c''], Some ''*.a'')
   \<and> Suc 1 < length [''x.png'', ''*.b'', ''*.c'']
   \<and> has_wildcard ([''x.png'', ''*.b'', ''*.c''] ! 1)
   \<and> has_wildcard ([''x.png'', ''*.b'', ''*.c''] ! Suc 1)
   \<and> loop_state (\<lambda>pat. []) [''*.a'', ''x.png'', ''*.b'', ''*.c''] (Suc 1)
       = Some (Suc 1, [''x.png'', ''*.c''], Some ''*.b'')
   \<and> expand_loop (\<lambda>pat. []) 0 [''*.a'', ''x.png'', ''*.b'', ''*.c''] None
       = Some ([''x.png'', ''*.c''], Some ''*.b'')
   \<and> ''*.c'' \<in> set [''x.png'', ''*.c'']"
proof -
  let ?gl = "\<lambda>pat::string. [] :: string list"
  let ?args = "[''*.a'', ''x.png'', ''*.b'', ''*.c'']"
  let ?xs = "[''x.png'', ''*.b'', ''*.c'']"
  have a: "loop_state ?gl ?args 1 = Some (1, ?xs, Some ''*.a'')" by code_simp
  have b: "Suc 1 < length ?xs" by simp
  have c: "has_wildcard (?xs ! 1)" by code_simp
  have d: "has_wildcard (?xs ! Suc 1)" by code_simp
  have e: "expand_loop ?gl 0 ?args None = Some ([''x.png'', ''*.c''], Some ''*.b'')" by code_simp
  have r: "remove1 (?xs ! 1) ?xs @ ?gl (?xs ! 1) = [''x.png'', ''*.c'']" by code_simp
  have x: "?xs ! Suc 1 = ''*.c''" by code_simp
  from expand_loop_skips_second_wildcard [OF a b c d]
  have "loop_state ?gl ?args (Suc 1) = Some (Suc 1, remove1 (?xs ! 1) ?xs @ ?gl (?xs ! 1), Some (?xs ! 1))"
    and "\<forall>ys g. expand_loop ?gl 0 ?args None = Some (ys, g) \<longrightarrow> ?xs ! Suc 1 \<in> set ys"
    by blast+
  with e have "loop_state ?gl ?args (Suc 1) = Some (Suc 1, remove1 (?xs ! 1) ?xs @ ?gl (?xs ! 1), Some (?xs ! 1))"
    and "?xs ! Suc 1 \<in> set [''x.png'', ''*.c'']"
    by blast+
  then have "loop_state ?gl ?args (Suc 1) = Some (Suc 1, [''x.png'', ''*.c''], Some ''*.b'')"
    and "''*.c'' \<in> set [''x.png'', ''*.c'']"
    unfolding r x by simp_all
  with a b c d e show ?thesis by blast
qed

section \<open>Chunks without an object id\<close>
















end
